theory Spec2Isabelle
  imports Main
begin
section \<open>The tunnelling HTTP handler of cmd_server.go\<close>

text \<open>
  A Go \<open>string\<close> is a sequence of bytes; it is modelled by \<^typ>\<open>string\<close>, a list of
  8-bit characters. The handler \<open>HTTPHandler\<close> talks to three collaborators: the
  inbound HTTP request and its response writer, the MQTT client, and the standard
  output. Everything it does to them is recorded, in program order, in a trace of events.
\<close>

subsection \<open>Library functions used by the handler\<close>

text \<open>
  \<open>strings.HasPrefix(s, prefix)\<close> is
  \<open>len(s) >= len(prefix) && s[:len(prefix)] == prefix\<close>.
\<close>

definition HasPrefix :: "string \<Rightarrow> string \<Rightarrow> bool" where
  "HasPrefix s prefix \<longleftrightarrow> length prefix \<le> length s \<and> take (length prefix) s = prefix"

text \<open>
  The handler calls \<open>strings.Contains\<close> and \<open>strings.Split\<close> with the one-byte
  separator \<open>"."\<close> only, so both take the separator as a byte. \<open>Split\<close> cuts at every
  occurrence of the separator and always returns at least one piece (the whole string
  when the separator does not occur, one empty piece for the empty string).
\<close>

definition Contains :: "string \<Rightarrow> char \<Rightarrow> bool" where
  "Contains s sep \<longleftrightarrow> sep \<in> set s"

fun Split :: "string \<Rightarrow> char \<Rightarrow> string list" where
  "Split [] sep = [[]]"
| "Split (c # cs) sep =
     (if c = sep then [] # Split cs sep
      else (case Split cs sep of
              [] \<Rightarrow> [[c]]
            | piece # pieces \<Rightarrow> (c # piece) # pieces))"

subsection \<open>Host name, topic and the reply decoder\<close>

text \<open>
  Lines 83 to 87: the variable \<open>host\<close>. Indexing \<open>hsts[0]\<close> panics on an empty slice;
  that would be the value \<open>None\<close>.
\<close>

definition vhost :: "string \<Rightarrow> string option" where
  "vhost rHost =
     (if Contains rHost (CHR ''.'') then
        (case Split rHost (CHR ''.'') of
           [] \<Rightarrow> None
         | h # _ \<Rightarrow> Some h)
      else Some rHost)"

text \<open>Lines 104, 115 and 161: the expression \<open>"clients/"+host\<close>.\<close>

definition topic :: "string \<Rightarrow> string" where
  "topic host = ''clients/'' @ host"

text \<open>
  Lines 126 to 129, the body of the subscription callback. The test and the slice
  \<open>tmp[2:]\<close> are \<open>decode\<close>; the assignment to the captured variable \<open>response\<close> is
  \<open>callback\<close>, which takes the old value of the variable and returns the new one.
\<close>

definition sigil :: string where
  "sigil = ''X-''"

definition decode :: "string \<Rightarrow> string option" where
  "decode payload =
     (let tmp = payload in
      if HasPrefix tmp sigil then Some (drop 2 tmp) else None)"

definition callback :: "string \<Rightarrow> string \<Rightarrow> string" where
  "callback response payload =
     (case decode payload of
        Some reply \<Rightarrow> reply
      | None \<Rightarrow> response)"

text \<open>The callback run on a batch of messages, in the order of their arrival.\<close>

definition deliver :: "string \<Rightarrow> string list \<Rightarrow> string" where
  "deliver response payloads = foldl callback response payloads"

subsection \<open>Events and the environment of one request\<close>

datatype event =
    Stdout string
  | Publish string nat bool string
  | Subscribe string
  | Sleep nat
  | Unsubscribe string
  | WriterWrite string
  | HttpError string nat
  | Hijack
  | ConnWrite string
  | ConnFlush
  | ConnClose
  | Panic

text \<open>
  \<open>Stdout\<close> is \<open>fmt.Printf\<close>; \<open>Publish topic qos retained payload\<close>, \<open>Subscribe\<close> and
  \<open>Unsubscribe\<close> are the calls on the MQTT client; \<open>Sleep n\<close> is \<open>time.Sleep\<close> of \<open>n\<close>
  seconds; \<open>WriterWrite\<close> is \<open>fmt.Fprintf(w, ...)\<close> and \<open>HttpError msg code\<close> is
  \<open>http.Error(w, msg, code)\<close>, both on the ordinary response writer; \<open>Hijack\<close> is a
  successful \<open>hj.Hijack()\<close>; \<open>ConnWrite\<close>, \<open>ConnFlush\<close> and \<open>ConnClose\<close> are lines 224 to
  226 on the connection taken over.
\<close>

datatype takeover = NotHijacker | HijackFails string | HijackOk

text \<open>
  What the handler reads from the outside for one request. An error is its message
  (\<open>err.Error()\<close>). The callback runs on another goroutine whenever the broker delivers a
  message while the subscription is installed; the handler can see its effect at three
  places, so the deliveries of a run are given in three parts: \<open>before_wait\<close> holds the
  payloads delivered after \<open>Subscribe\<close> and before the loop condition is first tested,
  \<open>during_sleep k\<close> those delivered between the \<open>k\<close>-th and the next test of the loop
  condition, and \<open>after_wait\<close> those delivered after the loop is left and before
  \<open>Unsubscribe\<close> removes the subscription.
\<close>

record env =
  rHost :: string
  dump :: "string + string"
  publish_err :: "string option"
  subscribe_err :: "string option"
  unsubscribe_err :: "string option"
  before_wait :: "string list"
  during_sleep :: "nat \<Rightarrow> string list"
  after_wait :: "string list"
  hijack :: takeover

subsection \<open>The handler\<close>

definition LF :: string where
  "LF = [CHR 0x0A]"

text \<open>Lines 144 to 153: the polling loop, with the variables \<open>response\<close> and \<open>count\<close>.\<close>

function wait_loop ::
  "(nat \<Rightarrow> string list) \<Rightarrow> string \<Rightarrow> nat \<Rightarrow> event list \<Rightarrow> string \<times> nat \<times> event list" where
  "wait_loop arrivals response count out =
     (if length response = 0 \<and> count < 10 then
        wait_loop arrivals (deliver response (arrivals count)) (Suc count)
          (out @ [Stdout (''Awaiting a reply ..'' @ LF), Sleep 1])
      else (response, count, out))"
  by pat_completeness auto
termination
  by (relation "measure (\<lambda>(arrivals, response, count, out). 10 - count)") auto

declare wait_loop.simps [simp del]

text \<open>Lines 182 to 192: the raw string literal of the failure response.\<close>

definition timeout_response :: string where
  "timeout_response =
     ''HTTP/1.0 200 OK'' @ LF @
     ''Content-type: text/html; charset=UTF-8'' @ LF @
     ''Connection: close'' @ LF @
     LF @
     ''<!DOCTYPE html>'' @ LF @
     ''<html>'' @ LF @
     ''<body>'' @ LF @
     ''<p>We didn't receive a reply from the remote host, despite waiting 10 seconds.</p>'' @ LF @
     ''</body>'' @ LF @
     ''</html>'' @ LF"

text \<open>Lines 175 to 193: the value of \<open>response\<close> after the test for an empty reply.\<close>

definition final_response :: "string \<Rightarrow> string" where
  "final_response response = (if length response = 0 then timeout_response else response)"

text \<open>Lines 208 to 226: taking over the connection and sending the reply.\<close>

definition relay :: "takeover \<Rightarrow> string \<Rightarrow> event list" where
  "relay hj response =
     (case hj of
        NotHijacker \<Rightarrow>
          [HttpError ''Webserver doesn't support hijacking'' 500,
           Stdout ''Webserver doesn't support hijacking'']
      | HijackFails err \<Rightarrow>
          [HttpError err 500,
           Stdout (''Error running hijack:'' @ err)]
      | HijackOk \<Rightarrow>
          [Hijack, ConnWrite response, ConnFlush, ConnClose])"

text \<open>Lines 163 to 166: what a failed \<open>Unsubscribe\<close> prints.\<close>

definition unsubscribe_log :: "env \<Rightarrow> string \<Rightarrow> event list" where
  "unsubscribe_log e host =
     (case unsubscribe_err e of
        Some err \<Rightarrow>
          [Stdout (''Failed to unsubscribe from clients/'' @ host @ '' - '' @ err @ LF)]
      | None \<Rightarrow> [])"

text \<open>Lines 104 to 226: the handler once the request has been dumped.\<close>

definition correlate :: "env \<Rightarrow> string \<Rightarrow> string \<Rightarrow> event list" where
  "correlate e host requestDump =
     [Publish (topic host) 0 False requestDump, Subscribe (topic host)] @
     (case subscribe_err e of
        Some err \<Rightarrow>
          [Stdout (''Error subscribing to clients/'' @ host @ '' - '' @ err @ LF),
           WriterWrite (''Error subscribing to clients/'' @ host @ '' - '' @ err @ LF)]
      | None \<Rightarrow>
          (case wait_loop (during_sleep e) (deliver [] (before_wait e)) 0 [] of
             (response, count, out) \<Rightarrow>
               out @ [Unsubscribe (topic host)] @ unsubscribe_log e host @
               relay (hijack e) (final_response (deliver response (after_wait e)))))"

text \<open>Lines 74 to 228.\<close>

definition HTTPHandler :: "env \<Rightarrow> event list" where
  "HTTPHandler e =
     (case vhost (rHost e) of
        None \<Rightarrow> [Panic]
      | Some host \<Rightarrow>
          Stdout (''Sending request to remote name '' @ host @ LF) #
          (case dump e of
             Inl err \<Rightarrow>
               [WriterWrite (''Error converting the incoming request to plain-text: '' @ err @ LF),
                Stdout (''Error converting the incoming request to plain-text: '' @ err @ LF)]
           | Inr requestDump \<Rightarrow> correlate e host requestDump))"

subsection \<open>Observations on a run\<close>

text \<open>The payloads the callback has run on when the loop condition is tested for the \<open>k\<close>-th time (counting from 0).\<close>

definition received_by :: "env \<Rightarrow> nat \<Rightarrow> string list" where
  "received_by e k = before_wait e @ concat (map (during_sleep e) [0..<k])"

text \<open>The value of \<open>response\<close> at that test.\<close>

definition slot_at :: "env \<Rightarrow> nat \<Rightarrow> string" where
  "slot_at e k = deliver [] (received_by e k)"

text \<open>The number of times the loop body runs: the value of \<open>count\<close> after the loop.\<close>

definition polls :: "env \<Rightarrow> nat" where
  "polls e = fst (snd (wait_loop (during_sleep e) (deliver [] (before_wait e)) 0 []))"

text \<open>All payloads the callback runs on while the subscription is installed.\<close>

definition received :: "env \<Rightarrow> string list" where
  "received e = received_by e (polls e) @ after_wait e"

text \<open>The value of \<open>response\<close> when line 175 inspects it.\<close>

definition recorded :: "env \<Rightarrow> string" where
  "recorded e = deliver [] (received e)"

text \<open>The seconds slept, and the bytes written on the connection taken over.\<close>

fun slept :: "event list \<Rightarrow> nat" where
  "slept [] = 0"
| "slept (Sleep n # evs) = n + slept evs"
| "slept (_ # evs) = slept evs"

fun conn_bytes :: "event list \<Rightarrow> string" where
  "conn_bytes [] = []"
| "conn_bytes (ConnWrite bs # evs) = bs @ conn_bytes evs"
| "conn_bytes (_ # evs) = conn_bytes evs"


text \<open>The events of \<open>n\<close> runs of the loop body.\<close>

definition awaiting :: "nat \<Rightarrow> event list" where
  "awaiting n = concat (replicate n [Stdout (''Awaiting a reply ..'' @ LF), Sleep 1])"

text \<open>The events the caller of the HTTP request can see, and the calls of \<open>Unsubscribe\<close>.\<close>

fun to_caller :: "event \<Rightarrow> bool" where
  "to_caller (WriterWrite _) = True"
| "to_caller (HttpError _ _) = True"
| "to_caller Hijack = True"
| "to_caller (ConnWrite _) = True"
| "to_caller ConnFlush = True"
| "to_caller ConnClose = True"
| "to_caller _ = False"

fun is_unsubscribe :: "event \<Rightarrow> bool" where
  "is_unsubscribe (Unsubscribe _) = True"
| "is_unsubscribe _ = False"

subsection \<open>Concrete requests\<close>

definition quiet :: env where
  "quiet =
     \<lparr>rHost = ''foo.tunnel.example.com'',
      dump = Inr ''GET / HTTP/1.1'',
      publish_err = None,
      subscribe_err = None,
      unsubscribe_err = None,
      before_wait = [],
      during_sleep = (\<lambda>k. []),
      after_wait = [],
      hijack = HijackOk\<rparr>"

text \<open>
  Variants of the request \<open>quiet\<close>, which is for the host \<open>foo.tunnel.example.com\<close>,
  meets no error and is sent no message: two replies delivered during the first sleep;
  a failing \<open>Publish\<close>; a response writer that is no \<open>http.Hijacker\<close>; a reply that is the
  sigil alone, with and without a connection to take over; a request that cannot be
  dumped; a failing \<open>Unsubscribe\<close>; a reply delivered during the second sleep; a reply
  delivered after the last test of the loop condition.
\<close>

definition two_replies :: env where
  "two_replies = quiet\<lparr>during_sleep := (\<lambda>k. if k = 0 then [''X-first'', ''X-second''] else [])\<rparr>"

definition publish_fails :: env where
  "publish_fails = quiet\<lparr>publish_err := Some ''not Connected''\<rparr>"

definition no_takeover :: env where
  "no_takeover = quiet\<lparr>hijack := NotHijacker\<rparr>"

definition empty_reply :: env where
  "empty_reply = quiet\<lparr>during_sleep := (\<lambda>k. if k = 3 then [''X-''] else [])\<rparr>"

definition empty_reply_no_takeover :: env where
  "empty_reply_no_takeover = empty_reply\<lparr>hijack := NotHijacker\<rparr>"

definition body_unreadable :: env where
  "body_unreadable = quiet\<lparr>dump := Inl ''unexpected EOF''\<rparr>"

definition unsubscribe_fails :: env where
  "unsubscribe_fails = quiet\<lparr>unsubscribe_err := Some ''not Connected''\<rparr>"

definition slow_reply :: env where
  "slow_reply =
     quiet\<lparr>during_sleep :=
       (\<lambda>k. if k = 1
            then [''X-HTTP/1.1 200 OK'' @ [CHR 0x0D, CHR 0x0A, CHR 0x0D, CHR 0x0A] @ ''hi'']
            else [])\<rparr>"

definition late_reply :: env where
  "late_reply = quiet\<lparr>after_wait := [''X-late'']\<rparr>"


section \<open>Auxiliary facts\<close>

subsection \<open>Strings and the decoder\<close>

lemma HasPrefix_iff: "HasPrefix s p \<longleftrightarrow> (\<exists>r. s = p @ r)"
  unfolding HasPrefix_def
  by (metis append_eq_conv_conj append_take_drop_id length_append le_add1 )

lemma Split_not_empty: "Split s sep \<noteq> []"
  by (induction s) (auto split: list.splits)

lemma hd_Split: "hd (Split s sep) = takeWhile (\<lambda>c. c \<noteq> sep) s"
  by (induction s) (auto split: list.splits simp: Split_not_empty)

lemma vhost_eq: "vhost h = Some (takeWhile (\<lambda>c. c \<noteq> CHR ''.'') h)"
proof (cases "Contains h (CHR ''.'')")
  case True
  obtain p ps where sp: "Split h (CHR ''.'') = p # ps"
    using Split_not_empty [of h "CHR ''.''"] by (cases "Split h (CHR ''.'')") auto
  with hd_Split [of h "CHR ''.''"] have "p = takeWhile (\<lambda>c. c \<noteq> CHR ''.'') h" by simp
  with True sp show ?thesis by (simp add: vhost_def)
next
  case False
  then have "takeWhile (\<lambda>c. c \<noteq> CHR ''.'') h = h"
    by (auto simp: Contains_def takeWhile_eq_all_conv)
  with False show ?thesis by (metis vhost_def)
qed

lemma decode_sigil: "decode (sigil @ bs) = Some bs"
  by (simp add: decode_def HasPrefix_iff sigil_def)

lemma decode_none: "(\<forall>r. m \<noteq> sigil @ r) \<Longrightarrow> decode m = None"
  by (simp add: decode_def HasPrefix_iff)

lemma deliver_snoc: "deliver r (ms @ [m]) = callback (deliver r ms) m"
  by (simp add: deliver_def)

lemma deliver_append: "deliver r (ms @ ns) = deliver (deliver r ms) ns"
  by (simp add: deliver_def)

lemma deliver_last:
  "deliver r ms =
     (case rev (filter (\<lambda>m. HasPrefix m sigil) ms) of
        [] \<Rightarrow> r
      | m # _ \<Rightarrow> drop 2 m)"
proof (induction ms rule: rev_induct)
  case Nil
  show ?case by (simp add: deliver_def)
next
  case (snoc m ms)
  show ?case
    by (simp add: deliver_snoc snoc callback_def decode_def)
qed

subsection \<open>The polling loop and the shape of a run\<close>

lemma received_by_Suc: "received_by e (Suc k) = received_by e k @ during_sleep e k"
  by (simp add: received_by_def)

lemma slot_at_Suc: "slot_at e (Suc k) = deliver (slot_at e k) (during_sleep e k)"
  by (simp add: slot_at_def received_by_Suc deliver_append)

lemma slot_at_0: "slot_at e 0 = deliver [] (before_wait e)"
  by (simp add: slot_at_def received_by_def)

lemma wait_loop_step:
  "response = [] \<Longrightarrow> count < 10 \<Longrightarrow>
   wait_loop arrivals response count out =
     wait_loop arrivals (deliver response (arrivals count)) (Suc count)
       (out @ [Stdout (''Awaiting a reply ..'' @ LF), Sleep 1])"
  by (subst wait_loop.simps) simp

lemma wait_loop_stop:
  "response \<noteq> [] \<or> \<not> count < 10 \<Longrightarrow> wait_loop arrivals response count out = (response, count, out)"
  by (subst wait_loop.simps) auto

lemma wait_loop_run:
  "arrivals = during_sleep e \<Longrightarrow> response = slot_at e count \<Longrightarrow> count \<le> 10 \<Longrightarrow>
   \<exists>n. count \<le> n \<and> n \<le> 10 \<and>
       wait_loop arrivals response count out = (slot_at e n, n, out @ awaiting (n - count)) \<and>
       (\<forall>k. count \<le> k \<and> k < n \<longrightarrow> slot_at e k = []) \<and>
       (n < 10 \<longrightarrow> slot_at e n \<noteq> [])"
proof (induction arrivals response count out rule: wait_loop.induct)
  case (1 arrivals response count out)
  show ?case
  proof (cases "length response = 0 \<and> count < 10")
    case True
    then have c: "Suc count \<le> 10" and r: "response = []" by auto
    from "1.IH" [OF True "1.prems"(1) _ c]
    obtain n where n: "Suc count \<le> n" "n \<le> 10"
      "wait_loop arrivals (deliver response (arrivals count)) (Suc count)
          (out @ [Stdout (''Awaiting a reply ..'' @ LF), Sleep 1]) =
        (slot_at e n, n, (out @ [Stdout (''Awaiting a reply ..'' @ LF), Sleep 1]) @ awaiting (n - Suc count))"
      "\<forall>k. Suc count \<le> k \<and> k < n \<longrightarrow> slot_at e k = []"
      "n < 10 \<longrightarrow> slot_at e n \<noteq> []"
      using "1.prems" by (auto simp: slot_at_Suc)
    have aw: "[Stdout (''Awaiting a reply ..'' @ LF), Sleep 1] @ awaiting (n - Suc count) = awaiting (n - count)"
    proof -
      from n(1) obtain m where m: "n - count = Suc m" "n - Suc count = m"
        by (metis Suc_diff_Suc Suc_le_lessD)
      have "\<And>m. [Stdout (''Awaiting a reply ..'' @ LF), Sleep 1] @ awaiting m = awaiting (Suc m)"
        by (simp add: awaiting_def)
      with m show ?thesis by simp
    qed
    have low: "\<forall>k. count \<le> k \<and> k < n \<longrightarrow> slot_at e k = []"
    proof (intro allI impI)
      fix k assume k: "count \<le> k \<and> k < n"
      show "slot_at e k = []"
      proof (cases "k = count")
        case True
        with r "1.prems"(2) show ?thesis by simp
      next
        case False
        with k n(4) show ?thesis by simp
      qed
    qed
    have "wait_loop arrivals response count out = (slot_at e n, n, out @ awaiting (n - count))"
      using r c n(3) aw by (simp add: wait_loop_step)
    with n low show ?thesis by (intro exI [of _ n]) auto
  next
    case False
    then have "wait_loop arrivals response count out = (response, count, out)"
      by (intro wait_loop_stop) auto
    moreover from False "1.prems" have "count < 10 \<longrightarrow> slot_at e count \<noteq> []" by auto
    ultimately show ?thesis
      using "1.prems" by (intro exI [of _ count]) (auto simp: awaiting_def)
  qed
qed

lemma wait_result:
  "wait_loop (during_sleep e) (deliver [] (before_wait e)) 0 [] =
     (slot_at e (polls e), polls e, awaiting (polls e))"
  using wait_loop_run [of "during_sleep e" e "slot_at e 0" 0 "[]"]
  by (auto simp: polls_def slot_at_0)

lemma polls_le: "polls e \<le> 10"
  using wait_loop_run [of "during_sleep e" e "slot_at e 0" 0 "[]"]
  by (auto simp: polls_def slot_at_0)

lemma polls_before: "k < polls e \<Longrightarrow> slot_at e k = []"
  using wait_loop_run [of "during_sleep e" e "slot_at e 0" 0 "[]"]
  by (auto simp: polls_def slot_at_0)

lemma polls_early: "polls e < 10 \<Longrightarrow> slot_at e (polls e) \<noteq> []"
  using wait_loop_run [of "during_sleep e" e "slot_at e 0" 0 "[]"]
  by (auto simp: polls_def slot_at_0)

lemma recorded_eq: "recorded e = deliver (slot_at e (polls e)) (after_wait e)"
  unfolding recorded_def received_def slot_at_def by (rule deliver_append)

lemma correlate_eq:
  "subscribe_err e = None \<Longrightarrow>
   correlate e host d =
     [Publish (topic host) 0 False d, Subscribe (topic host)] @ awaiting (polls e) @
     [Unsubscribe (topic host)] @ unsubscribe_log e host @
     relay (hijack e) (final_response (recorded e))"
  by (simp add: correlate_def wait_result recorded_eq unsubscribe_log_def)

lemma HTTPHandler_waits:
  "vhost (rHost e) = Some host \<Longrightarrow> dump e = Inr d \<Longrightarrow> subscribe_err e = None \<Longrightarrow>
   HTTPHandler e =
     [Stdout (''Sending request to remote name '' @ host @ LF),
      Publish (topic host) 0 False d, Subscribe (topic host)] @ awaiting (polls e) @
     [Unsubscribe (topic host)] @ unsubscribe_log e host @
     relay (hijack e) (final_response (recorded e))"
  by (simp add: HTTPHandler_def correlate_eq)

subsection \<open>Observations on traces\<close>

lemmas eval_defs = quiet_def deliver_def wait_loop_step wait_loop_stop callback_def decode_def
  HasPrefix_def sigil_def relay_def final_response_def HTTPHandler_def correlate_def
  polls_def recorded_def received_def received_by_def slot_at_def topic_def unsubscribe_log_def

lemma vhost_quiet: "vhost ''foo.tunnel.example.com'' = Some ''foo''"
  by (simp add: vhost_def Contains_def)

lemma slept_append: "slept (xs @ ys) = slept xs + slept ys"
  by (induction xs rule: slept.induct) simp_all

lemma slept_awaiting: "slept (awaiting n) = n"
  by (induction n) (simp_all add: awaiting_def)

lemma slept_relay: "slept (relay hj r) = 0"
  by (simp add: relay_def split: takeover.splits)

lemma slept_unsubscribe_log: "slept (unsubscribe_log e host) = 0"
  by (simp add: unsubscribe_log_def split: option.splits)

lemma concat_nothing: "concat (map (\<lambda>k. []) ks) = []"
  by (induction ks) simp_all

lemma conn_bytes_append: "conn_bytes (xs @ ys) = conn_bytes xs @ conn_bytes ys"
  by (induction xs rule: conn_bytes.induct) simp_all

lemma conn_bytes_awaiting: "conn_bytes (awaiting n) = []"
  by (induction n) (simp_all add: awaiting_def)

lemma conn_bytes_unsubscribe_log: "conn_bytes (unsubscribe_log e host) = []"
  by (simp add: unsubscribe_log_def split: option.splits)

lemma Sleep_awaiting: "Sleep n \<in> set (awaiting k) \<Longrightarrow> n = 1"
  by (induction k) (auto simp: awaiting_def)

lemma filter_awaiting: "filter to_caller (awaiting n) = []" "filter is_unsubscribe (awaiting n) = []"
  by (induction n) (simp_all add: awaiting_def)

lemma filter_unsubscribe_log:
  "filter to_caller (unsubscribe_log e host) = []" "filter is_unsubscribe (unsubscribe_log e host) = []"
  by (simp_all add: unsubscribe_log_def split: option.splits)

lemma filter_relay: "filter is_unsubscribe (relay hj r) = []" "filter to_caller (relay hj r) \<noteq> []"
  by (simp_all add: relay_def split: takeover.splits)

lemma polls_unsubscribe_err: "polls (e\<lparr>unsubscribe_err := u\<rparr>) = polls e"
  by (simp add: polls_def)

lemma recorded_unsubscribe_err: "recorded (e\<lparr>unsubscribe_err := u\<rparr>) = recorded e"
  by (simp add: recorded_def received_def received_by_def polls_def)

lemma correlate_publish_err: "correlate (e\<lparr>publish_err := p\<rparr>) host d = correlate e host d"
  by (cases "subscribe_err e") (simp_all add: correlate_def unsubscribe_log_def)

lemma publish_err_unread: "HTTPHandler (e\<lparr>publish_err := p\<rparr>) = HTTPHandler e"
  by (cases "vhost (rHost e)"; cases "dump e")
    (simp_all add: HTTPHandler_def correlate_publish_err)

lemma late_reply_relayed:
  "polls late_reply = 10 \<and> slot_at late_reply 10 = [] \<and> recorded late_reply = ''late'' \<and>
   filter to_caller (HTTPHandler late_reply) = [Hijack, ConnWrite ''late'', ConnFlush, ConnClose]"
proof -
  have "polls late_reply = 10"
    by (simp add: late_reply_def eval_defs)
  moreover have "slot_at late_reply 10 = []"
    by (simp add: late_reply_def eval_defs concat_nothing)
  moreover have r: "recorded late_reply = ''late''"
    by (simp add: late_reply_def eval_defs concat_nothing)
  moreover have "vhost (rHost late_reply) = Some ''foo''" "dump late_reply = Inr ''GET / HTTP/1.1''"
    "subscribe_err late_reply = None" "hijack late_reply = HijackOk"
    by (simp_all add: late_reply_def quiet_def vhost_quiet)
  ultimately show ?thesis
    by (simp add: HTTPHandler_waits r relay_def final_response_def filter_awaiting
        filter_unsubscribe_log)
qed

lemma deliver_noop:
  "\<forall>m\<in>set ms. HasPrefix m sigil \<longrightarrow> m = sigil \<Longrightarrow> deliver [] ms = []"
proof (induction ms rule: rev_induct)
  case Nil
  show ?case by (simp add: deliver_def)
next
  case (snoc m ms)
  then have "deliver [] ms = []" by simp
  moreover from snoc.prems have "callback [] m = []"
    by (auto simp: callback_def decode_def sigil_def)
  ultimately show ?case by (simp add: deliver_snoc)
qed


section \<open>The claims\<close>

text \<open>
  Claim C9. Topic naming is a pure, total and deterministic function: for every client
  identifier it yields the fixed prefix \<open>clients/\<close> followed by the identifier, so equal
  identifiers give equal topics and distinct identifiers give distinct topics.
\<close>
theorem topic_injective: "topic i = ''clients/'' @ i \<and> (topic a = topic b) = (a = b)"
  by (simp add: topic_def)

text \<open>
  Claim C4. The round-trip law of the reply decoder: the sigil has two characters;
  decoding the sigil followed by any bytes yields exactly those bytes, and the callback
  records them whatever the variable held; a message that does not begin with the sigil
  decodes to nothing and leaves the variable as it was.
\<close>
theorem decode_round_trip:
  "length sigil = 2 \<and> decode (sigil @ bytes) = Some bytes \<and>
   callback response (sigil @ bytes) = bytes \<and>
   ((\<forall>rest. m \<noteq> sigil @ rest) \<longrightarrow> decode m = None \<and> callback response m = response)"
  by (simp add: decode_sigil decode_none callback_def) (simp add: sigil_def)

text \<open>
  A reply carrying a status line is decoded to the status line, and the echo of a
  request is ignored.
\<close>
theorem decode_round_trip_witness:
  "decode (sigil @ ''HTTP/1.1 200 OK'') = Some ''HTTP/1.1 200 OK'' \<and>
   (\<forall>rest. ''GET / HTTP/1.1'' \<noteq> sigil @ rest) \<and>
   decode ''GET / HTTP/1.1'' = None \<and> callback ''old'' ''GET / HTTP/1.1'' = ''old''"
proof -
  have h: "\<forall>rest. ''GET / HTTP/1.1'' \<noteq> sigil @ rest" by (simp add: sigil_def)
  with decode_round_trip [of "''HTTP/1.1 200 OK''" "''old''" "''GET / HTTP/1.1''"]
  show ?thesis by blast
qed

text \<open>
  Claim C7. The client identifier is the whole host name when the host name has no dot,
  and the label before the first dot otherwise: a host name \<open>l.rest\<close> whose part \<open>l\<close> has no
  dot yields \<open>l\<close>.
\<close>
theorem vhost_label:
  "(CHR ''.'' \<notin> set h \<longrightarrow> vhost h = Some h) \<and>
   (CHR ''.'' \<notin> set l \<longrightarrow> vhost (l @ CHR ''.'' # rest) = Some l)"
proof (intro conjI impI)
  assume "CHR ''.'' \<notin> set h"
  then show "vhost h = Some h" by (simp add: vhost_def Contains_def)
next
  assume "CHR ''.'' \<notin> set l"
  then have "takeWhile (\<lambda>c. c \<noteq> CHR ''.'') (l @ CHR ''.'' # rest) = l"
    by (auto simp: takeWhile_tail)
  then show "vhost (l @ CHR ''.'' # rest) = Some l" by (simp add: vhost_eq)
qed

text \<open>
  The host \<open>bar\<close> yields \<open>bar\<close>, and the host \<open>foo.tunnel.example.com\<close> yields \<open>foo\<close>.
\<close>
theorem vhost_label_witness:
  "CHR ''.'' \<notin> set ''bar'' \<and> vhost ''bar'' = Some ''bar'' \<and>
   CHR ''.'' \<notin> set ''foo'' \<and> vhost ''foo.tunnel.example.com'' = Some ''foo''"
proof -
  have a: "CHR ''.'' \<notin> set ''bar''" and b: "CHR ''.'' \<notin> set ''foo''" by simp_all
  from vhost_label [of "''bar''" "''foo''" "''tunnel.example.com''"] a b
  show ?thesis by simp
qed

text \<open>
  Claim C8. When dumping the request fails, the handler prints the name of the remote,
  writes the error through the ordinary response writer, prints it, and returns: the
  whole run is these three events, so nothing is published, no subscription is made, the
  loop is never entered and the connection is not taken over.
\<close>
theorem encode_failure_aborts:
  "dump e = Inl err \<Longrightarrow>
   \<exists>host. vhost (rHost e) = Some host \<and>
     HTTPHandler e =
       [Stdout (''Sending request to remote name '' @ host @ LF),
        WriterWrite (''Error converting the incoming request to plain-text: '' @ err @ LF),
        Stdout (''Error converting the incoming request to plain-text: '' @ err @ LF)]"
  by (simp add: HTTPHandler_def vhost_eq)

text \<open>
  A request whose body cannot be read.
\<close>
theorem encode_failure_aborts_witness:
  "dump body_unreadable = Inl ''unexpected EOF'' \<and>
   HTTPHandler body_unreadable =
     [Stdout (''Sending request to remote name foo'' @ LF),
      WriterWrite (''Error converting the incoming request to plain-text: unexpected EOF'' @ LF),
      Stdout (''Error converting the incoming request to plain-text: unexpected EOF'' @ LF)]"
proof -
  have h: "dump body_unreadable = Inl ''unexpected EOF''"
    by (simp add: body_unreadable_def quiet_def)
  have "rHost body_unreadable = ''foo.tunnel.example.com''"
    by (simp add: body_unreadable_def quiet_def)
  with encode_failure_aborts [OF h] h show ?thesis
    by (auto simp: vhost_quiet)
qed


text \<open>
  Claim C5. For every request that enters the wait, the loop returns, after \<open>polls e\<close>
  runs of its body. There are at most 10 of them and each sleeps one second, so the
  handler sleeps \<open>polls e\<close> seconds, at most 10. The loop runs on as long as the variable
  is empty at the test of its condition, and it stops before the tenth run only when
  the test finds the variable non-empty.
\<close>
theorem wait_bounded:
  assumes "dump e = Inr d" and "subscribe_err e = None"
  shows "wait_loop (during_sleep e) (slot_at e 0) 0 [] =
           (slot_at e (polls e), polls e, awaiting (polls e)) \<and>
         polls e \<le> 10 \<and>
         (\<forall>k<polls e. slot_at e k = []) \<and>
         (polls e < 10 \<longrightarrow> slot_at e (polls e) \<noteq> []) \<and>
         slept (HTTPHandler e) = polls e \<and>
         (\<forall>n. Sleep n \<in> set (HTTPHandler e) \<longrightarrow> n = 1)"
proof -
  obtain host where host: "vhost (rHost e) = Some host" by (simp add: vhost_eq)
  note shape = HTTPHandler_waits [OF host assms]
  have "slept (HTTPHandler e) = polls e"
    by (simp add: shape slept_append slept_awaiting slept_relay slept_unsubscribe_log)
  moreover have "\<forall>n. Sleep n \<in> set (HTTPHandler e) \<longrightarrow> n = 1"
    by (auto simp: shape relay_def unsubscribe_log_def dest: Sleep_awaiting
        split: takeover.splits option.splits)
  ultimately show ?thesis
    using wait_result [of e] polls_le [of e] polls_before [of _ e] polls_early [of e]
    by (simp add: slot_at_0)
qed

text \<open>
  A reply delivered during the second sleep ends the wait after two seconds; without any
  reply the wait lasts ten seconds.
\<close>
theorem wait_bounded_witness:
  "polls slow_reply = 2 \<and> slot_at slow_reply 1 = [] \<and>
   slot_at slow_reply 2 = ''HTTP/1.1 200 OK'' @ [CHR 0x0D, CHR 0x0A, CHR 0x0D, CHR 0x0A] @ ''hi'' \<and>
   slept (HTTPHandler slow_reply) = 2 \<and>
   polls quiet = 10 \<and> slept (HTTPHandler quiet) = 10"
proof -
  have a: "dump slow_reply = Inr ''GET / HTTP/1.1''" "subscribe_err slow_reply = None"
    and b: "dump quiet = Inr ''GET / HTTP/1.1''" "subscribe_err quiet = None"
    by (simp_all add: slow_reply_def quiet_def)
  have p: "polls slow_reply = 2"
    by (simp add: slow_reply_def eval_defs)
  have q: "polls quiet = 10"
    by (simp add: eval_defs)
  have s: "slot_at slow_reply 2 = ''HTTP/1.1 200 OK'' @ [CHR 0x0D, CHR 0x0A, CHR 0x0D, CHR 0x0A] @ ''hi''"
    by (simp add: slow_reply_def eval_defs numeral_2_eq_2)
  from wait_bounded [OF a] wait_bounded [OF b] p q s show ?thesis
    by simp
qed

text \<open>
  Claim C6. For every request whose subscription was established, the run is some
  events, then one call of \<open>Unsubscribe\<close> on the topic of the client, then some more
  events. Nothing is sent to the caller before that call and something is sent after it;
  no other event of the run is an \<open>Unsubscribe\<close>. Whatever the outcome of the
  \<open>Unsubscribe\<close>, the caller is sent the same; a failure is printed on the standard
  output.
\<close>
theorem unsubscribe_once:
  assumes "dump e = Inr d" and "subscribe_err e = None"
  shows "\<exists>host before after.
           vhost (rHost e) = Some host \<and>
           HTTPHandler e = before @ Unsubscribe (topic host) # after \<and>
           filter to_caller before = [] \<and> filter to_caller after \<noteq> [] \<and>
           length (filter is_unsubscribe (HTTPHandler e)) = 1 \<and>
           filter to_caller (HTTPHandler (e\<lparr>unsubscribe_err := u\<rparr>)) =
             filter to_caller (HTTPHandler e) \<and>
           (\<forall>err. unsubscribe_err e = Some err \<longrightarrow>
              Stdout (''Failed to unsubscribe from clients/'' @ host @ '' - '' @ err @ LF)
                \<in> set after)"
proof -
  obtain host where host: "vhost (rHost e) = Some host" by (simp add: vhost_eq)
  let ?before = "[Stdout (''Sending request to remote name '' @ host @ LF),
      Publish (topic host) 0 False d, Subscribe (topic host)] @ awaiting (polls e)"
  let ?after = "unsubscribe_log e host @ relay (hijack e) (final_response (recorded e))"
  note shape = HTTPHandler_waits [OF host assms]
  have 1: "HTTPHandler e = ?before @ Unsubscribe (topic host) # ?after"
    by (simp add: shape)
  have 2: "filter to_caller ?before = []" by (simp add: filter_awaiting)
  have 3: "filter to_caller ?after \<noteq> []" by (simp add: filter_relay filter_unsubscribe_log)
  have 4: "length (filter is_unsubscribe (HTTPHandler e)) = 1"
    by (simp add: shape filter_awaiting filter_relay filter_unsubscribe_log)
  have "HTTPHandler (e\<lparr>unsubscribe_err := u\<rparr>) =
     ?before @ Unsubscribe (topic host) # unsubscribe_log (e\<lparr>unsubscribe_err := u\<rparr>) host @
       relay (hijack e) (final_response (recorded e))"
    using HTTPHandler_waits [of "e\<lparr>unsubscribe_err := u\<rparr>" host d] host assms
    by (simp add: polls_unsubscribe_err recorded_unsubscribe_err)
  then have 5: "filter to_caller (HTTPHandler (e\<lparr>unsubscribe_err := u\<rparr>)) =
             filter to_caller (HTTPHandler e)"
    by (simp add: shape filter_awaiting filter_unsubscribe_log)
  have 6: "\<forall>err. unsubscribe_err e = Some err \<longrightarrow>
              Stdout (''Failed to unsubscribe from clients/'' @ host @ '' - '' @ err @ LF)
                \<in> set ?after"
    by (simp add: unsubscribe_log_def)
  from host 1 2 3 4 5 6
  have "vhost (rHost e) = Some host \<and>
        HTTPHandler e = ?before @ Unsubscribe (topic host) # ?after \<and>
        filter to_caller ?before = [] \<and> filter to_caller ?after \<noteq> [] \<and>
        length (filter is_unsubscribe (HTTPHandler e)) = 1 \<and>
        filter to_caller (HTTPHandler (e\<lparr>unsubscribe_err := u\<rparr>)) =
          filter to_caller (HTTPHandler e) \<and>
        (\<forall>err. unsubscribe_err e = Some err \<longrightarrow>
           Stdout (''Failed to unsubscribe from clients/'' @ host @ '' - '' @ err @ LF)
             \<in> set ?after)"
    by (intro conjI)
  then show ?thesis by (intro exI)
qed


text \<open>
  A request whose \<open>Unsubscribe\<close> fails is answered as the same request whose
  \<open>Unsubscribe\<close> succeeds.
\<close>
theorem unsubscribe_once_witness:
  "unsubscribe_err unsubscribe_fails = Some ''not Connected'' \<and>
   length (filter is_unsubscribe (HTTPHandler unsubscribe_fails)) = 1 \<and>
   filter to_caller (HTTPHandler unsubscribe_fails) = filter to_caller (HTTPHandler quiet) \<and>
   Stdout (''Failed to unsubscribe from clients/foo - not Connected'' @ LF)
     \<in> set (HTTPHandler unsubscribe_fails)"
proof -
  have a: "dump unsubscribe_fails = Inr ''GET / HTTP/1.1''" "subscribe_err unsubscribe_fails = None"
    and h: "rHost unsubscribe_fails = ''foo.tunnel.example.com''"
    and u: "unsubscribe_err unsubscribe_fails = Some ''not Connected''"
    and q: "unsubscribe_fails\<lparr>unsubscribe_err := None\<rparr> = quiet"
    by (simp_all add: unsubscribe_fails_def quiet_def)
  from unsubscribe_once [OF a, of None] show ?thesis
    unfolding h u q vhost_quiet by auto
qed

text \<open>
  Claim C3, amended. Whenever the variable \<open>response\<close> is empty when the handler inspects
  it after the wait and the \<open>Unsubscribe\<close>, and the connection is taken over
  successfully, the bytes written to the caller are exactly the failure response of the
  source: 203 bytes, whose lines are the status line \<open>HTTP/1.0 200 OK\<close>, the headers
  \<open>Content-type: text/html; charset=UTF-8\<close> and \<open>Connection: close\<close>, an empty line, and
  the HTML body saying that no reply was received.
\<close>
theorem timeout_response_written:
  assumes "dump e = Inr d" and "subscribe_err e = None"
    and "hijack e = HijackOk" and "recorded e = []"
  shows "filter to_caller (HTTPHandler e) =
           [Hijack, ConnWrite timeout_response, ConnFlush, ConnClose] \<and>
         conn_bytes (HTTPHandler e) = timeout_response \<and>
         length timeout_response = 203 \<and>
         Split timeout_response (CHR 0x0A) =
           [''HTTP/1.0 200 OK'',
            ''Content-type: text/html; charset=UTF-8'',
            ''Connection: close'',
            [],
            ''<!DOCTYPE html>'',
            ''<html>'',
            ''<body>'',
            ''<p>We didn't receive a reply from the remote host, despite waiting 10 seconds.</p>'',
            ''</body>'',
            ''</html>'',
            []]"
proof -
  obtain host where host: "vhost (rHost e) = Some host" by (simp add: vhost_eq)
  note shape = HTTPHandler_waits [OF host assms(1,2)]
  have r: "relay (hijack e) (final_response (recorded e)) =
      [Hijack, ConnWrite timeout_response, ConnFlush, ConnClose]"
    using assms(3,4) by (simp add: relay_def final_response_def)
  have 1: "filter to_caller (HTTPHandler e) =
           [Hijack, ConnWrite timeout_response, ConnFlush, ConnClose]"
    by (simp add: shape r filter_awaiting filter_unsubscribe_log)
  have 2: "conn_bytes (HTTPHandler e) = timeout_response"
    by (simp add: shape r conn_bytes_append conn_bytes_awaiting conn_bytes_unsubscribe_log)
  have 3: "length timeout_response = 203"
    by (simp add: timeout_response_def LF_def)
  have 4: "Split timeout_response (CHR 0x0A) =
           [''HTTP/1.0 200 OK'',
            ''Content-type: text/html; charset=UTF-8'',
            ''Connection: close'',
            [],
            ''<!DOCTYPE html>'',
            ''<html>'',
            ''<body>'',
            ''<p>We didn't receive a reply from the remote host, despite waiting 10 seconds.</p>'',
            ''</body>'',
            ''</html>'',
            []]"
    by (simp add: timeout_response_def LF_def)
  from 1 2 3 4 show ?thesis by (intro conjI)
qed

text \<open>
  A request that no reply answers, on a connection that can be taken over.
\<close>
theorem timeout_response_written_witness:
  "recorded quiet = [] \<and> hijack quiet = HijackOk \<and>
   conn_bytes (HTTPHandler quiet) = timeout_response"
proof -
  have a: "dump quiet = Inr ''GET / HTTP/1.1''" "subscribe_err quiet = None"
    "hijack quiet = HijackOk"
    by (simp_all add: quiet_def)
  have b: "recorded quiet = []" by (simp add: eval_defs)
  from timeout_response_written [OF a b] a b show ?thesis by (intro conjI) simp_all
qed

text \<open>
  As the claim was stated, for every request left without a reply, it fails where the response
  writer is no \<open>http.Hijacker\<close>: no reply is recorded, during the wait or after it, and
  the caller is sent an error with status 500 instead of the failure response.
\<close>
theorem timeout_response_not_written:
  "slot_at no_takeover 10 = [] \<and> recorded no_takeover = [] \<and>
   filter to_caller (HTTPHandler no_takeover) =
     [HttpError ''Webserver doesn't support hijacking'' 500] \<and>
   conn_bytes (HTTPHandler no_takeover) \<noteq> timeout_response"
proof -
  have "slot_at no_takeover 10 = []"
    by (simp add: no_takeover_def eval_defs concat_nothing)
  moreover have "recorded no_takeover = []"
    by (simp add: no_takeover_def eval_defs)
  moreover have "HTTPHandler no_takeover =
     [Stdout (''Sending request to remote name foo'' @ LF),
      Publish ''clients/foo'' 0 False ''GET / HTTP/1.1'', Subscribe ''clients/foo''] @
     awaiting 10 @ [Unsubscribe ''clients/foo'',
       HttpError ''Webserver doesn't support hijacking'' 500,
       Stdout ''Webserver doesn't support hijacking'']"
    by (simp add: no_takeover_def eval_defs vhost_quiet awaiting_def eval_nat_numeral)
  moreover have "timeout_response \<noteq> []"
    by (simp add: timeout_response_def)
  ultimately show ?thesis
    by (simp add: filter_awaiting conn_bytes_append conn_bytes_awaiting)
qed

text \<open>
  Claim C10, amended. When every message delivered that carries the sigil is the sigil
  alone, the run is the very run of the same request with no message delivered at all:
  the callback leaves the empty variable empty, the loop runs its ten times, and, when
  the connection is taken over successfully, the caller is sent the failure response and
  not an empty one.
\<close>
theorem empty_reply_is_no_reply:
  assumes "dump e = Inr d" and "subscribe_err e = None"
    and "\<forall>m. m \<in> set (before_wait e) \<or> (\<exists>k<10. m \<in> set (during_sleep e k)) \<or>
             m \<in> set (after_wait e) \<longrightarrow> HasPrefix m sigil \<longrightarrow> m = sigil"
  shows "callback [] sigil = [] \<and> recorded e = [] \<and> polls e = 10 \<and>
         slept (HTTPHandler e) = 10 \<and>
         HTTPHandler e =
           HTTPHandler (e\<lparr>before_wait := [], during_sleep := (\<lambda>k. []), after_wait := []\<rparr>) \<and>
         (hijack e = HijackOk \<longrightarrow> conn_bytes (HTTPHandler e) = timeout_response)"
proof -
  obtain host where host: "vhost (rHost e) = Some host" by (simp add: vhost_eq)
  let ?q = "e\<lparr>before_wait := [], during_sleep := (\<lambda>k. []), after_wait := []\<rparr>"
  have slots: "slot_at e k = []" if "k \<le> 10" for k
  proof -
    have "\<forall>m\<in>set (received_by e k). HasPrefix m sigil \<longrightarrow> m = sigil"
    proof
      fix m assume "m \<in> set (received_by e k)"
      then have "m \<in> set (before_wait e) \<or> (\<exists>j<k. m \<in> set (during_sleep e j))"
        by (auto simp: received_by_def)
      with that have "m \<in> set (before_wait e) \<or> (\<exists>j<10. m \<in> set (during_sleep e j))"
        by (meson less_le_trans)
      with assms(3) show "HasPrefix m sigil \<longrightarrow> m = sigil" by blast
    qed
    then show ?thesis unfolding slot_at_def by (rule deliver_noop)
  qed
  have p: "polls e = 10"
    using polls_early [of e] polls_le [of e] slots [of "polls e"] by force
  have "\<forall>m\<in>set (after_wait e). HasPrefix m sigil \<longrightarrow> m = sigil"
    using assms(3) by blast
  then have r: "recorded e = []"
    by (simp add: recorded_eq p slots deliver_noop)
  have qslots: "slot_at ?q k = []" for k
    by (simp add: slot_at_def received_by_def deliver_def concat_nothing)
  have qp: "polls ?q = 10"
    using polls_early [of ?q] polls_le [of ?q] qslots [of "polls ?q"] by force
  have qr: "recorded ?q = []"
    by (simp add: recorded_eq qslots) (simp add: deliver_def)
  have shape: "HTTPHandler e =
     [Stdout (''Sending request to remote name '' @ host @ LF),
      Publish (topic host) 0 False d, Subscribe (topic host)] @ awaiting 10 @
     [Unsubscribe (topic host)] @ unsubscribe_log e host @
     relay (hijack e) timeout_response"
    using HTTPHandler_waits [OF host assms(1,2)] by (simp add: p r final_response_def)
  have "HTTPHandler ?q =
     [Stdout (''Sending request to remote name '' @ host @ LF),
      Publish (topic host) 0 False d, Subscribe (topic host)] @ awaiting 10 @
     [Unsubscribe (topic host)] @ unsubscribe_log ?q host @
     relay (hijack e) timeout_response"
    using HTTPHandler_waits [of ?q host d] host assms(1,2)
    by (simp add: qp qr final_response_def)
  then have same: "HTTPHandler e = HTTPHandler ?q"
    by (simp add: shape unsubscribe_log_def)
  have s: "slept (HTTPHandler e) = 10"
    by (simp add: shape slept_append slept_awaiting slept_relay slept_unsubscribe_log)
  have c: "hijack e = HijackOk \<longrightarrow> conn_bytes (HTTPHandler e) = timeout_response"
    by (simp add: shape relay_def conn_bytes_append conn_bytes_awaiting conn_bytes_unsubscribe_log)
  have "callback [] sigil = []"
    by (simp add: callback_def decode_def HasPrefix_def sigil_def)
  with r p s same c show ?thesis by (intro conjI)
qed


text \<open>
  A reply that is the sigil alone, delivered during the fourth sleep.
\<close>
theorem empty_reply_is_no_reply_witness:
  "during_sleep empty_reply 3 = [sigil] \<and> recorded empty_reply = [] \<and>
   polls empty_reply = 10 \<and> slept (HTTPHandler empty_reply) = 10 \<and>
   HTTPHandler empty_reply = HTTPHandler quiet \<and>
   conn_bytes (HTTPHandler empty_reply) = timeout_response"
proof -
  have a: "dump empty_reply = Inr ''GET / HTTP/1.1''" "subscribe_err empty_reply = None"
    and h: "hijack empty_reply = HijackOk"
    and s: "during_sleep empty_reply 3 = [sigil]"
    and q: "empty_reply\<lparr>before_wait := [], during_sleep := (\<lambda>k. []), after_wait := []\<rparr> = quiet"
    by (simp_all add: empty_reply_def quiet_def sigil_def)
  have b: "\<forall>m. m \<in> set (before_wait empty_reply) \<or>
             (\<exists>k<10. m \<in> set (during_sleep empty_reply k)) \<or>
             m \<in> set (after_wait empty_reply) \<longrightarrow> HasPrefix m sigil \<longrightarrow> m = sigil"
    by (auto simp: empty_reply_def quiet_def sigil_def split: if_splits)
  from empty_reply_is_no_reply [OF a b] h s show ?thesis
    unfolding q by blast
qed

text \<open>
  As the claim was stated, it fails where the response writer is no \<open>http.Hijacker\<close>:
  after a reply that is the sigil alone the caller is sent an error with status 500, not
  the failure response.
\<close>
theorem empty_reply_without_takeover:
  "during_sleep empty_reply_no_takeover 3 = ''X-'' # [] \<and>
   recorded empty_reply_no_takeover = [] \<and> polls empty_reply_no_takeover = 10 \<and>
   filter to_caller (HTTPHandler empty_reply_no_takeover) =
     [HttpError ''Webserver doesn't support hijacking'' 500] \<and>
   conn_bytes (HTTPHandler empty_reply_no_takeover) \<noteq> timeout_response"
proof -
  have "during_sleep empty_reply_no_takeover 3 = ''X-'' # []"
    by (simp add: empty_reply_no_takeover_def empty_reply_def quiet_def)
  moreover have "polls empty_reply_no_takeover = 10"
    by (simp add: empty_reply_no_takeover_def empty_reply_def eval_defs)
  moreover have "recorded empty_reply_no_takeover = []"
    by (simp add: empty_reply_no_takeover_def empty_reply_def eval_defs eval_nat_numeral)
  moreover have "HTTPHandler empty_reply_no_takeover =
     [Stdout (''Sending request to remote name foo'' @ LF),
      Publish ''clients/foo'' 0 False ''GET / HTTP/1.1'', Subscribe ''clients/foo''] @
     awaiting 10 @ [Unsubscribe ''clients/foo'',
       HttpError ''Webserver doesn't support hijacking'' 500,
       Stdout ''Webserver doesn't support hijacking'']"
    by (simp add: empty_reply_no_takeover_def empty_reply_def eval_defs vhost_quiet awaiting_def
        eval_nat_numeral)
  moreover have "timeout_response \<noteq> []"
    by (simp add: timeout_response_def)
  ultimately show ?thesis
    by (simp add: filter_awaiting conn_bytes_append conn_bytes_awaiting)
qed

text \<open>
  Claim C1, amended. The reply the callback has recorded when the handler inspects the
  variable is the payload of the last message bearing the sigil among those delivered
  while the subscription was installed, with the sigil stripped and the other bytes as
  they came: every later message bearing the sigil replaces what an earlier one left.
  When these bytes are not empty and the connection is taken over successfully, they are
  what is written to the caller.
\<close>
theorem last_reply_recorded:
  assumes "received e = earlier @ (sigil @ bytes) # later"
    and "\<forall>m\<in>set later. \<not> HasPrefix m sigil"
  shows "recorded e = bytes \<and>
         (dump e = Inr d \<and> subscribe_err e = None \<and> hijack e = HijackOk \<and> bytes \<noteq> [] \<longrightarrow>
            conn_bytes (HTTPHandler e) = bytes)"
proof -
  have "filter (\<lambda>m. HasPrefix m sigil) later = []"
    using assms(2) by (simp add: filter_empty_conv)
  moreover have "HasPrefix (sigil @ bytes) sigil" by (simp add: HasPrefix_iff)
  ultimately have r: "recorded e = bytes"
    by (simp add: recorded_def assms(1) deliver_last sigil_def)
  have "conn_bytes (HTTPHandler e) = bytes"
    if w: "dump e = Inr d" "subscribe_err e = None" and h: "hijack e = HijackOk" and b: "bytes \<noteq> []"
  proof -
    obtain host where host: "vhost (rHost e) = Some host" by (simp add: vhost_eq)
    show ?thesis
      using h b
      by (simp add: HTTPHandler_waits [OF host w] r relay_def final_response_def
          conn_bytes_append conn_bytes_awaiting conn_bytes_unsubscribe_log)
  qed
  with r show ?thesis by blast
qed

text \<open>
  Two replies delivered during the first sleep: the second is recorded and written.
\<close>
theorem last_reply_recorded_witness:
  "received two_replies = [sigil @ ''first'', sigil @ ''second''] \<and>
   recorded two_replies = ''second'' \<and>
   conn_bytes (HTTPHandler two_replies) = ''second''"
proof -
  have a: "received two_replies = [sigil @ ''first''] @ (sigil @ ''second'') # []"
    by (simp add: two_replies_def eval_defs)
  have b: "\<forall>m\<in>set []. \<not> HasPrefix m sigil" by simp
  have c: "dump two_replies = Inr ''GET / HTTP/1.1''" "subscribe_err two_replies = None"
    "hijack two_replies = HijackOk"
    by (simp_all add: two_replies_def quiet_def)
  from last_reply_recorded [OF a b, of "''GET / HTTP/1.1''"] a c show ?thesis by simp
qed

text \<open>
  As the claim was stated, with the first reply kept, it fails on the same run: the first
  message bearing the sigil decodes to \<open>first\<close>, and the reply recorded and written is
  \<open>second\<close>.
\<close>
theorem first_reply_replaced:
  "received two_replies = [''X-first'', ''X-second''] \<and>
   decode ''X-first'' = Some ''first'' \<and>
   recorded two_replies \<noteq> ''first'' \<and>
   conn_bytes (HTTPHandler two_replies) = ''second''"
proof -
  have "received two_replies = [''X-first'', ''X-second'']"
    by (simp add: two_replies_def eval_defs)
  moreover have "decode ''X-first'' = Some ''first''"
    by (simp add: eval_defs)
  moreover have "recorded two_replies = ''second''"
    by (simp add: two_replies_def eval_defs)
  moreover have "HTTPHandler two_replies =
     [Stdout (''Sending request to remote name foo'' @ LF),
      Publish ''clients/foo'' 0 False ''GET / HTTP/1.1'', Subscribe ''clients/foo''] @
     awaiting 1 @ [Unsubscribe ''clients/foo'',
       Hijack, ConnWrite ''second'', ConnFlush, ConnClose]"
    by (simp add: two_replies_def eval_defs vhost_quiet awaiting_def)
  ultimately show ?thesis
    by (simp add: conn_bytes_append conn_bytes_awaiting)
qed

text \<open>
  Claim C2 does not hold of the code: the token of \<open>Publish\<close> is waited for and its error
  is never read. On a request whose \<open>Publish\<close> fails the handler goes on to subscribe,
  sleeps its ten seconds, unsubscribes and sends the caller the failure response of a
  request left without a reply; no error is sent to the caller. The run is the run of
  the same request with a successful \<open>Publish\<close>.
\<close>
theorem publish_failure_ignored:
  "publish_err publish_fails = Some ''not Connected'' \<and>
   HTTPHandler publish_fails =
     [Stdout (''Sending request to remote name foo'' @ LF),
      Publish ''clients/foo'' 0 False ''GET / HTTP/1.1'', Subscribe ''clients/foo''] @
     awaiting 10 @
     [Unsubscribe ''clients/foo'', Hijack, ConnWrite timeout_response, ConnFlush, ConnClose] \<and>
   HTTPHandler publish_fails = HTTPHandler quiet \<and>
   Subscribe ''clients/foo'' \<in> set (HTTPHandler publish_fails) \<and>
   slept (HTTPHandler publish_fails) = 10 \<and>
   filter to_caller (HTTPHandler publish_fails) =
     [Hijack, ConnWrite timeout_response, ConnFlush, ConnClose]"
proof -
  have p: "publish_err publish_fails = Some ''not Connected''"
    by (simp add: publish_fails_def quiet_def)
  have t: "HTTPHandler publish_fails =
     [Stdout (''Sending request to remote name foo'' @ LF),
      Publish ''clients/foo'' 0 False ''GET / HTTP/1.1'', Subscribe ''clients/foo''] @
     awaiting 10 @
     [Unsubscribe ''clients/foo'', Hijack, ConnWrite timeout_response, ConnFlush, ConnClose]"
    by (simp add: publish_fails_def eval_defs vhost_quiet awaiting_def eval_nat_numeral)
  have q: "HTTPHandler quiet = HTTPHandler publish_fails"
    using publish_err_unread [where e = quiet and p = "Some ''not Connected''"]
    by (simp add: publish_fails_def)
  show ?thesis
    unfolding q t using p
    by (simp add: slept_append slept_awaiting filter_awaiting)
qed

end
